theory Spec2Isabelle
  imports Main "HOL-Library.Word"
begin

unbundle bit_operations_syntax

section \<open>Go values\<close>

text \<open>
  A Go \<open>string\<close> and a \<open>[]byte\<close> are sequences of bytes; both are modelled as
  \<open>char list\<close> (an Isabelle \<open>char\<close> is one byte). \<open>bv c\<close> is the numeric value of
  the byte \<open>c\<close>. A \<open>rune\<close> (int32) is modelled as an \<open>int\<close>; where the source
  accumulates one in 32 bits the wrap-around is written out.
\<close>

definition bv :: "char \<Rightarrow> int" where
  "bv c = of_char c"

definition dquote :: char where "dquote = CHR 0x22"
definition squote :: char where "squote = CHR 0x27"
definition bquote :: char where "bquote = CHR 0x60"
definition backslash :: char where "backslash = CHR 0x5C"
definition newline :: char where "newline = CHR 0x0A"
definition carriage_return :: char where "carriage_return = CHR 0x0D"

section \<open>The standard library functions the package calls\<close>

text \<open>
  The package calls \<open>strconv.ParseUint\<close>, \<open>strconv.FormatUint\<close>,
  \<open>strconv.Unquote\<close> and \<open>strconv.Quote\<close> of Go's standard library, which in turn
  use \<open>unicode/utf8\<close>. They are modelled here after the library's own code, function
  by function, under the library's names.
\<close>

subsection \<open>Errors of strconv\<close>

text \<open>
  \<open>strconv.ErrSyntax\<close>, \<open>strconv.ErrRange\<close> and \<open>*strconv.NumError{Func, Num, Err}\<close>.
\<close>

datatype go_error = ErrSyntax | ErrRange | NumError string string go_error

definition syntaxError :: "string \<Rightarrow> string \<Rightarrow> go_error" where
  "syntaxError fn str = NumError fn str ErrSyntax"

definition rangeError :: "string \<Rightarrow> string \<Rightarrow> go_error" where
  "rangeError fn str = NumError fn str ErrRange"

subsection \<open>strconv.ParseUint(s, 10, 64)\<close>

text \<open>
  The package calls \<open>strconv.ParseUint\<close> with base 10 and bit size 64 only, so the
  model fixes both: the base-prefix and underscore handling of base 0 is not reached.
  \<open>lower c\<close> is \<open>c | ('x' - 'X')\<close>. \<open>digit_of\<close> is the \<open>switch\<close> at the head of the
  loop body: the digit value of a byte, or \<open>None\<close> in the \<open>default\<close> case.
\<close>

definition lower :: "char \<Rightarrow> int" where
  "lower c = bv c OR 0x20"

definition digit_of :: "char \<Rightarrow> int option" where
  "digit_of c =
     (if bv (CHR ''0'') \<le> bv c \<and> bv c \<le> bv (CHR ''9'') then Some (bv c - bv (CHR ''0''))
      else if bv (CHR ''a'') \<le> lower c \<and> lower c \<le> bv (CHR ''z'')
        then Some (lower c - bv (CHR ''a'') + 10)
      else None)"

definition maxUint64 :: "64 word" where
  "maxUint64 = 0xFFFFFFFFFFFFFFFF"

text \<open>\<open>cutoff\<close> is the smallest number such that \<open>cutoff * 10 > maxUint64\<close>.\<close>

definition cutoff :: "64 word" where
  "cutoff = maxUint64 div 10 + 1"

definition maxVal :: "64 word" where
  "maxVal = push_bit 64 1 - 1"

definition fnParseUint :: string where
  "fnParseUint = ''ParseUint''"

text \<open>
  The loop \<open>for _, c := range []byte(s)\<close> with the accumulator \<open>n\<close> (uint64,
  wrapping). On a range error Go returns \<open>maxVal\<close> beside the error; the caller
  discards the value, and the model returns the error alone.
\<close>

fun ParseUint_loop :: "string \<Rightarrow> 64 word \<Rightarrow> string \<Rightarrow> go_error + 64 word" where
  "ParseUint_loop s0 n [] = Inr n"
| "ParseUint_loop s0 n (c # cs) =
     (case digit_of c of
        None \<Rightarrow> Inl (syntaxError fnParseUint s0)
      | Some d \<Rightarrow>
          if d \<ge> 10 then Inl (syntaxError fnParseUint s0)
          else if n \<ge> cutoff then Inl (rangeError fnParseUint s0)
          else
            let n' = n * 10;
                n1 = n' + word_of_int d
            in if n1 < n' \<or> n1 > maxVal then Inl (rangeError fnParseUint s0)
               else ParseUint_loop s0 n1 cs)"

definition ParseUint :: "string \<Rightarrow> go_error + 64 word" where
  "ParseUint s =
     (if s = [] then Inl (syntaxError fnParseUint s)
      else ParseUint_loop s 0 s)"

subsection \<open>strconv.FormatUint(i, 10)\<close>

text \<open>
  The decimal digits of an unsigned 64-bit value, most significant first, no leading
  zero, \<open>0\<close> as the single digit \<open>0\<close>. Go writes them two at a time from a table of
  the hundred two-digit strings; the model writes them one at a time from \<open>digits\<close>.
\<close>

definition digits :: string where
  "digits = ''0123456789abcdefghijklmnopqrstuvwxyz''"

function FormatUint :: "64 word \<Rightarrow> string" where
  "FormatUint u =
     (if u < 10 then [digits ! unat u]
      else FormatUint (u div 10) @ [digits ! unat (u mod 10)])"
  by pat_completeness auto
termination
proof (relation "measure unat")
  show "wf (measure unat)" by simp
next
  fix u :: "64 word"
  assume "\<not> u < 10"
  then have "10 \<le> unat u"
    by (simp add: word_less_nat_alt)
  then have "unat u div 10 < unat u"
    by simp
  then show "(u div 10, u) \<in> measure unat"
    by (simp add: unat_div)
qed

declare FormatUint.simps [simp del]

subsection \<open>unicode/utf8\<close>

definition RuneError :: int where "RuneError = 0xFFFD"
definition RuneSelf :: int where "RuneSelf = 0x80"
definition MaxRune :: int where "MaxRune = 0x10FFFF"
definition surrogateMin :: int where "surrogateMin = 0xD800"
definition surrogateMax :: int where "surrogateMax = 0xDFFF"
definition locb :: int where "locb = 0x80"
definition hicb :: int where "hicb = 0xBF"

text \<open>
  Go's tables \<open>first\<close> and \<open>acceptRanges\<close>, read together: for a leading byte of a
  multi-byte sequence, the length of the sequence and the accepted range of its second
  byte; \<open>None\<close> for a byte that cannot start one (the entry \<open>xx\<close>). Bytes below
  \<open>RuneSelf\<close> (the entry \<open>as\<close>) are handled before the lookup.
\<close>

definition first :: "int \<Rightarrow> (nat \<times> int \<times> int) option" where
  "first x =
     (if 0xC2 \<le> x \<and> x \<le> 0xDF then Some (2, 0x80, 0xBF)
      else if x = 0xE0 then Some (3, 0xA0, 0xBF)
      else if 0xE1 \<le> x \<and> x \<le> 0xEC then Some (3, 0x80, 0xBF)
      else if x = 0xED then Some (3, 0x80, 0x9F)
      else if 0xEE \<le> x \<and> x \<le> 0xEF then Some (3, 0x80, 0xBF)
      else if x = 0xF0 then Some (4, 0x90, 0xBF)
      else if 0xF1 \<le> x \<and> x \<le> 0xF3 then Some (4, 0x80, 0xBF)
      else if x = 0xF4 then Some (4, 0x80, 0x8F)
      else None)"

text \<open>\<open>utf8.DecodeRuneInString\<close>: the first rune of \<open>s\<close> and its width in bytes.\<close>

definition DecodeRuneInString :: "string \<Rightarrow> int \<times> nat" where
  "DecodeRuneInString s =
     (if length s < 1 then (RuneError, 0)
      else
        let s0 = bv (s ! 0) in
        if s0 < RuneSelf then (s0, 1)
        else
          (case first s0 of
             None \<Rightarrow> (RuneError, 1)
           | Some (sz, lo, hi) \<Rightarrow>
               if length s < sz then (RuneError, 1)
               else
                 let s1 = bv (s ! 1) in
                 if s1 < lo \<or> hi < s1 then (RuneError, 1)
                 else if sz \<le> 2 then (push_bit 6 (s0 AND 0x1F) OR (s1 AND 0x3F), 2)
                 else
                   let s2 = bv (s ! 2) in
                   if s2 < locb \<or> hicb < s2 then (RuneError, 1)
                   else if sz \<le> 3
                     then (push_bit 12 (s0 AND 0x0F) OR push_bit 6 (s1 AND 0x3F)
                             OR (s2 AND 0x3F), 3)
                   else
                     let s3 = bv (s ! 3) in
                     if s3 < locb \<or> hicb < s3 then (RuneError, 1)
                     else (push_bit 18 (s0 AND 0x07) OR push_bit 12 (s1 AND 0x3F)
                             OR push_bit 6 (s2 AND 0x3F) OR (s3 AND 0x3F), 4)))"

text \<open>\<open>utf8.ValidString\<close>: the loop over the bytes of \<open>s\<close>, from index \<open>i\<close>.\<close>

function ValidString_from :: "string \<Rightarrow> nat \<Rightarrow> bool" where
  "ValidString_from s i =
     (if i < length s then
        let si = bv (s ! i) in
        if si < RuneSelf then ValidString_from s (i + 1)
        else
          (case first si of
             None \<Rightarrow> False
           | Some (sz, lo, hi) \<Rightarrow>
               if i + sz > length s then False
               else if bv (s ! (i + 1)) < lo \<or> hi < bv (s ! (i + 1)) then False
               else if sz = 2 then ValidString_from s (i + 2)
               else if bv (s ! (i + 2)) < locb \<or> hicb < bv (s ! (i + 2)) then False
               else if sz = 3 then ValidString_from s (i + 3)
               else if bv (s ! (i + 3)) < locb \<or> hicb < bv (s ! (i + 3)) then False
               else ValidString_from s (i + 4))
      else True)"
  by pat_completeness auto
termination
  by (relation "measure (\<lambda>(s, i). length s - i)") auto

declare ValidString_from.simps [simp del]

definition ValidString :: "string \<Rightarrow> bool" where
  "ValidString s = ValidString_from s 0"

definition ValidRune :: "int \<Rightarrow> bool" where
  "ValidRune r =
     ((0 \<le> r \<and> r < surrogateMin) \<or> (surrogateMax < r \<and> r \<le> MaxRune))"

text \<open>
  \<open>utf8.AppendRune\<close>: \<open>i\<close> is \<open>uint32(r)\<close>; the third case is the \<open>fallthrough\<close>
  that replaces an invalid rune by \<open>RuneError\<close>.
\<close>

definition AppendRune :: "string \<Rightarrow> int \<Rightarrow> string" where
  "AppendRune p r =
     (let i = r mod 2 ^ 32 in
      if i \<le> 0x7F then p @ [char_of r]
      else if i \<le> 0x7FF then
        p @ [char_of (0xC0 OR drop_bit 6 r), char_of (0x80 OR (r AND 0x3F))]
      else if i > MaxRune \<or> (surrogateMin \<le> i \<and> i \<le> surrogateMax) then
        p @ [char_of (0xE0 OR drop_bit 12 RuneError),
             char_of (0x80 OR (drop_bit 6 RuneError AND 0x3F)),
             char_of (0x80 OR (RuneError AND 0x3F))]
      else if i \<le> 0xFFFF then
        p @ [char_of (0xE0 OR drop_bit 12 r),
             char_of (0x80 OR (drop_bit 6 r AND 0x3F)),
             char_of (0x80 OR (r AND 0x3F))]
      else
        p @ [char_of (0xF0 OR drop_bit 18 r),
             char_of (0x80 OR (drop_bit 12 r AND 0x3F)),
             char_of (0x80 OR (drop_bit 6 r AND 0x3F)),
             char_of (0x80 OR (r AND 0x3F))])"

text \<open>A non-empty string decodes to a rune of at least one byte.\<close>

lemma DecodeRuneInString_width:
  assumes "s \<noteq> []" and "DecodeRuneInString s = (r, w)"
  shows "1 \<le> w"
  using assms
  by (auto simp add: DecodeRuneInString_def Let_def split: if_splits option.splits)

subsection \<open>strconv.Unquote\<close>

text \<open>\<open>s[i:j]\<close>, for \<open>i \<le> j \<le> len(s)\<close>.\<close>

definition substr :: "string \<Rightarrow> nat \<Rightarrow> nat \<Rightarrow> string" where
  "substr s i j = take (j - i) (drop i s)"

text \<open>\<open>index(s, c)\<close>: the index of the first \<open>c\<close> in \<open>s\<close>, or \<open>-1\<close>.\<close>

definition index :: "string \<Rightarrow> char \<Rightarrow> int" where
  "index s c = (if c \<in> set s then int (length (takeWhile (\<lambda>x. x \<noteq> c) s)) else - 1)"

definition contains :: "string \<Rightarrow> char \<Rightarrow> bool" where
  "contains s c = (index s c \<noteq> - 1)"

definition unhex :: "char \<Rightarrow> int option" where
  "unhex b =
     (let c = bv b in
      if bv (CHR ''0'') \<le> c \<and> c \<le> bv (CHR ''9'') then Some (c - bv (CHR ''0''))
      else if bv (CHR ''a'') \<le> c \<and> c \<le> bv (CHR ''f'') then Some (c - bv (CHR ''a'') + 10)
      else if bv (CHR ''A'') \<le> c \<and> c \<le> bv (CHR ''F'') then Some (c - bv (CHR ''A'') + 10)
      else None)"

text \<open>
  The loops of \<open>UnquoteChar\<close> over the hexadecimal digits (\<open>v = v<<4 | x\<close>, in a
  32-bit rune) and over the two further octal digits (\<open>v = (v << 3) | x\<close>); \<open>None\<close>
  is the return with \<open>ErrSyntax\<close>.
\<close>

fun hex_loop :: "string \<Rightarrow> 32 word \<Rightarrow> 32 word option" where
  "hex_loop [] v = Some v"
| "hex_loop (c # cs) v =
     (case unhex c of
        None \<Rightarrow> None
      | Some x \<Rightarrow> hex_loop cs (push_bit 4 v OR word_of_int x))"

fun oct_loop :: "string \<Rightarrow> int \<Rightarrow> int option" where
  "oct_loop [] v = Some v"
| "oct_loop (c # cs) v =
     (let x = bv c - bv (CHR ''0'') in
      if x < 0 \<or> x > 7 then None
      else oct_loop cs (push_bit 3 v OR x))"

text \<open>
  \<open>strconv.UnquoteChar(s, quote)\<close>: the value of the first character or escape
  sequence of \<open>s\<close>, whether it is a multi-byte character, and the rest of \<open>s\<close>;
  \<open>None\<close> is the return with \<open>ErrSyntax\<close>.
\<close>

definition UnquoteChar :: "string \<Rightarrow> char \<Rightarrow> (int \<times> bool \<times> string) option" where
  "UnquoteChar s quote =
     (if length s = 0 then None
      else
        let c = s ! 0 in
        if c = quote \<and> (quote = squote \<or> quote = dquote) then None
        else if bv c \<ge> RuneSelf then
          (let (r, size) = DecodeRuneInString s in Some (r, True, drop size s))
        else if c \<noteq> backslash then Some (bv (s ! 0), False, drop 1 s)
        else if length s \<le> 1 then None
        else
          let c = s ! 1; s = drop 2 s in
          if c = CHR ''a'' then Some (7, False, s)
          else if c = CHR ''b'' then Some (8, False, s)
          else if c = CHR ''f'' then Some (12, False, s)
          else if c = CHR ''n'' then Some (10, False, s)
          else if c = CHR ''r'' then Some (13, False, s)
          else if c = CHR ''t'' then Some (9, False, s)
          else if c = CHR ''v'' then Some (11, False, s)
          else if c = CHR ''x'' \<or> c = CHR ''u'' \<or> c = CHR ''U'' then
            (let n = (if c = CHR ''x'' then 2 else if c = CHR ''u'' then 4 else 8) in
             if length s < n then None
             else
               (case hex_loop (take n s) 0 of
                  None \<Rightarrow> None
                | Some v \<Rightarrow>
                    if c = CHR ''x'' then Some (sint v, False, drop n s)
                    else if \<not> ValidRune (sint v) then None
                    else Some (sint v, True, drop n s)))
          else if bv (CHR ''0'') \<le> bv c \<and> bv c \<le> bv (CHR ''7'') then
            (if length s < 2 then None
             else
               (case oct_loop (take 2 s) (bv c - bv (CHR ''0'')) of
                  None \<Rightarrow> None
                | Some v \<Rightarrow> if v > 255 then None else Some (v, False, drop 2 s)))
          else if c = backslash then Some (bv backslash, False, s)
          else if c = squote \<or> c = dquote then
            (if c \<noteq> quote then None else Some (bv c, False, s))
          else None)"

text \<open>\<open>UnquoteChar\<close> consumes at least one byte.\<close>

lemma UnquoteChar_shorter:
  assumes "UnquoteChar s q = Some (r, mb, rest)"
  shows "length rest < length s"
proof (cases "s = []")
  case True
  with assms show ?thesis by (simp add: UnquoteChar_def)
next
  case False
  show ?thesis
  proof (cases "bv (s ! 0) \<ge> RuneSelf")
    case True
    obtain r' w where d: "DecodeRuneInString s = (r', w)"
      by (cases "DecodeRuneInString s")
    from DecodeRuneInString_width [OF False d] have "1 \<le> w" .
    with assms False True d show ?thesis
      by (auto simp add: UnquoteChar_def Let_def split: if_splits)
  next
    case nonself: False
    show ?thesis
    proof (cases "s ! 0 = backslash")
      case False
      with assms \<open>s \<noteq> []\<close> nonself show ?thesis
        by (auto simp add: UnquoteChar_def Let_def split: if_splits)
    next
      case True
      with assms \<open>s \<noteq> []\<close> nonself have "2 \<le> length s \<and> length rest \<le> length s - 2"
        by (auto simp add: UnquoteChar_def Let_def split: if_splits option.splits)
      then show ?thesis by arith
    qed
  qed
qed

text \<open>
  The loop of \<open>unquote\<close> over a quoted string with escape sequences, for
  \<open>unescape = true\<close>: \<open>inp\<close> is what is left of the input after the opening quote,
  \<open>buf\<close> the bytes unquoted so far. \<open>None\<close> is the return with \<open>ErrSyntax\<close> inside
  the loop; otherwise the loop ends with the rest of the input and the buffer.
\<close>

function unquote_loop :: "char \<Rightarrow> string \<Rightarrow> string \<Rightarrow> (string \<times> string) option" where
  "unquote_loop quote inp buf =
     (if length inp > 0 \<and> inp ! 0 \<noteq> quote then
        (case UnquoteChar inp quote of
           None \<Rightarrow> None
         | Some (r, multibyte, rest) \<Rightarrow>
             if inp ! 0 = newline then None
             else
               let buf' = (if r < RuneSelf \<or> \<not> multibyte then buf @ [char_of r]
                           else AppendRune buf r)
               in if quote = squote then Some (rest, buf')
                  else unquote_loop quote rest buf')
      else Some (inp, buf))"
  by pat_completeness auto
termination
  by (relation "measure (\<lambda>(quote, inp, buf). length inp)")
    (auto dest: UnquoteChar_shorter)

declare unquote_loop.simps [simp del]

text \<open>
  \<open>unquote(in, true)\<close>: the unquoted string, the rest of the input after the closing
  quote, and the error. \<open>e\<close> is \<open>end\<close>, the position after the first byte equal to
  the opening quote.
\<close>

definition unquote :: "string \<Rightarrow> string \<times> string \<times> go_error option" where
  "unquote inp =
     (if length inp < 2 then ([], inp, Some ErrSyntax)
      else
        let quote = inp ! 0;
            e0 = index (drop 1 inp) quote
        in
        if e0 < 0 then ([], inp, Some ErrSyntax)
        else
          let e = nat (e0 + 2) in
          if quote = bquote then
            (if \<not> contains (take e inp) carriage_return then substr inp 1 (e - 1)
             else filter (\<lambda>c. c \<noteq> carriage_return) (substr inp 1 (e - 1)),
             drop e inp, None)
          else if quote = dquote \<or> quote = squote then
            (if \<not> contains (take e inp) backslash \<and> \<not> contains (take e inp) newline \<and>
                (if quote = dquote then ValidString (substr inp 1 (e - 1))
                 else
                   (let (r, n) = DecodeRuneInString (substr inp 1 (e - 1))
                    in 1 + n + 1 = e \<and> (r \<noteq> RuneError \<or> n \<noteq> 1)))
             then (substr inp 1 (e - 1), drop e inp, None)
             else
               (case unquote_loop quote (drop 1 inp) [] of
                  None \<Rightarrow> ([], inp, Some ErrSyntax)
                | Some (rest, buf) \<Rightarrow>
                    if \<not> (length rest > 0 \<and> rest ! 0 = quote) then ([], inp, Some ErrSyntax)
                    else (buf, drop 1 rest, None)))
          else ([], inp, Some ErrSyntax))"

text \<open>
  \<open>strconv.Unquote(s)\<close>: \<open>s\<close> as a Go string literal in double quotes or back
  quotes, or a character literal in single quotes; nothing may follow the literal.
\<close>

definition Unquote :: "string \<Rightarrow> go_error + string" where
  "Unquote s =
     (let (out, rest, err) = unquote s in
      if length rest > 0 then Inl ErrSyntax
      else (case err of Some e \<Rightarrow> Inl e | None \<Rightarrow> Inr out))"


subsection \<open>strconv.Quote\<close>

text \<open>
  \<open>strconv.IsPrint\<close>. Above \<open>0xFF\<close> Go searches its Unicode tables
  (\<open>isPrint16\<close>, \<open>isNotPrint16\<close>, \<open>isPrint32\<close>, \<open>isNotPrint32\<close>); they are data
  outside the package and enter as the parameter \<open>tab\<close>.
\<close>

definition IsPrint :: "(int \<Rightarrow> bool) \<Rightarrow> int \<Rightarrow> bool" where
  "IsPrint tab r =
     (if r \<le> 0xFF then
        (if 0x20 \<le> r \<and> r \<le> 0x7E then True
         else if 0xA1 \<le> r \<and> r \<le> 0xFF then r \<noteq> 0xAD
         else False)
      else tab r)"

definition lowerhex :: string where
  "lowerhex = ''0123456789abcdef''"

text \<open>
  The hexadecimal digits of \<open>r\<close> from bit \<open>s\<close> down, four bits at a time:
  \<open>for s := ...; s >= 0; s -= 4 { lowerhex[r>>uint(s)&0xF] }\<close>, \<open>k\<close> digits.
\<close>

fun hex_digits :: "nat \<Rightarrow> int \<Rightarrow> string" where
  "hex_digits 0 r = []"
| "hex_digits (Suc k) r = lowerhex ! nat (drop_bit (4 * k) r AND 0xF) # hex_digits k r"

text \<open>
  \<open>appendEscapedRune(buf, r, quote, false, false)\<close>, as \<open>Quote\<close> calls it.
\<close>

definition appendEscapedRune :: "(int \<Rightarrow> bool) \<Rightarrow> string \<Rightarrow> int \<Rightarrow> char \<Rightarrow> string" where
  "appendEscapedRune tab buf r quote =
     (if r = bv quote \<or> r = bv backslash then buf @ [backslash, char_of r]
      else if IsPrint tab r then AppendRune buf r
      else if r = 7 then buf @ [backslash, CHR ''a'']
      else if r = 8 then buf @ [backslash, CHR ''b'']
      else if r = 12 then buf @ [backslash, CHR ''f'']
      else if r = 10 then buf @ [backslash, CHR ''n'']
      else if r = 13 then buf @ [backslash, CHR ''r'']
      else if r = 9 then buf @ [backslash, CHR ''t'']
      else if r = 11 then buf @ [backslash, CHR ''v'']
      else if r < 0x20 \<or> r = 0x7F then buf @ [backslash, CHR ''x''] @ hex_digits 2 (r AND 0xFF)
      else
        let r' = (if \<not> ValidRune r then 0xFFFD else r) in
        if r' < 0x10000 then buf @ [backslash, CHR ''u''] @ hex_digits 4 r'
        else buf @ [backslash, CHR ''U''] @ hex_digits 8 r')"

text \<open>
  The loop of \<open>appendQuotedWith\<close>, \<open>for width := 0; len(s) > 0; s = s[width:]\<close>, and
  \<open>Quote\<close>, which calls it with the double quote.
\<close>

function appendQuoted_loop :: "(int \<Rightarrow> bool) \<Rightarrow> string \<Rightarrow> string \<Rightarrow> char \<Rightarrow> string" where
  "appendQuoted_loop tab buf s quote =
     (if length s > 0 then
        let (r, width) = (if bv (s ! 0) \<ge> RuneSelf then DecodeRuneInString s
                          else (bv (s ! 0), 1))
        in
        if width = 1 \<and> r = RuneError
          then appendQuoted_loop tab
                 (buf @ [backslash, CHR ''x''] @ hex_digits 2 (bv (s ! 0))) (drop width s) quote
        else appendQuoted_loop tab (appendEscapedRune tab buf r quote) (drop width s) quote
      else buf)"
  by pat_completeness auto
termination
proof (relation "measure (\<lambda>(tab, buf, s, quote). length s)")
  show "wf (measure (\<lambda>(tab, buf, s, quote). length s))" by simp
next
  fix tab :: "int \<Rightarrow> bool" and buf s :: string and quote :: char and x :: "int \<times> nat"
    and r :: int and width :: nat
  assume s: "0 < length s"
    and x: "x = (if RuneSelf \<le> bv (s ! 0) then DecodeRuneInString s else (bv (s ! 0), 1))"
    and rw: "(r, width) = x"
  have "1 \<le> width"
  proof (cases "RuneSelf \<le> bv (s ! 0)")
    case True
    with x rw have "DecodeRuneInString s = (r, width)" by simp
    with s show ?thesis using DecodeRuneInString_width [of s r width] by auto
  next
    case False
    with x rw show ?thesis by simp
  qed
  with s have "length (drop width s) < length s" by simp
  then show "((tab, buf @ [backslash, CHR ''x''] @ hex_digits 2 (bv (s ! 0)), drop width s, quote),
      tab, buf, s, quote) \<in> measure (\<lambda>(tab, buf, s, quote). length s)"
    and "((tab, appendEscapedRune tab buf r quote, drop width s, quote),
      tab, buf, s, quote) \<in> measure (\<lambda>(tab, buf, s, quote). length s)"
    by simp_all
qed

declare appendQuoted_loop.simps [simp del]

definition Quote :: "(int \<Rightarrow> bool) \<Rightarrow> string \<Rightarrow> string" where
  "Quote tab s = appendQuoted_loop tab [dquote] s dquote @ [dquote]"


subsection \<open>package time\<close>

text \<open>
  The package reads a \<open>time.Time\<close> only through \<open>t.UnixMilli()\<close> and builds one only
  with \<open>time.UnixMilli(msec)\<close>, so a time is modelled by its int64 count of
  milliseconds since the Unix epoch: \<open>time_UnixMilli\<close> is the constructor,
  \<open>UnixMilli_of\<close> the method \<open>t.UnixMilli()\<close>. An int64 is a \<open>64 word\<close>, read with
  \<open>sint\<close>.
\<close>

datatype Time = time_UnixMilli (UnixMilli_of: "64 word")

section \<open>Package snowflake\<close>

subsection \<open>errors.go\<close>

record SnowflakeError =
  message :: string
  err :: go_error

datatype snowflake_error =
  StringParseError SnowflakeError
| UnquotedIntegerError SnowflakeError

definition OriginalError :: "SnowflakeError \<Rightarrow> go_error" where
  "OriginalError s = err s"

subsection \<open>snowflake.go\<close>

text \<open>
  The package variables \<open>AllowUnquoted\<close> and \<open>Epoch\<close> can be reassigned at any
  time; every function that reads one takes its current value as its first argument.
  The byte strings \<open>JSON_NULL\<close>, \<open>JSON_ZERO\<close> and \<open>JSON_ZERO_QUOTED\<close> are variables
  too, which the package asks not to modify; they are modelled at their initial values.
\<close>

definition JSON_NULL :: string where
  "JSON_NULL = ''null''"

definition JSON_ZERO :: string where
  "JSON_ZERO = ''0''"

definition JSON_ZERO_QUOTED :: string where
  "JSON_ZERO_QUOTED = [dquote, CHR ''0'', dquote]"

definition default_AllowUnquoted :: bool where
  "default_AllowUnquoted = True"

definition default_Epoch :: "64 word" where
  "default_Epoch = 1420070400000"

type_synonym Snowflake = "64 word"
type_synonym Bit = bool
type_synonym Bitmap = "Bit list"

definition UnixMilli :: "64 word \<Rightarrow> Snowflake \<Rightarrow> 64 word" where
  "UnixMilli Epoch s = drop_bit 22 s + Epoch"

definition Unix :: "64 word \<Rightarrow> Snowflake \<Rightarrow> 64 word" where
  "Unix Epoch s = (drop_bit 22 s + Epoch) div 1000"

definition Time :: "64 word \<Rightarrow> Snowflake \<Rightarrow> Time" where
  "Time Epoch s = time_UnixMilli (drop_bit 22 s + Epoch)"

definition WorkerID :: "Snowflake \<Rightarrow> 8 word" where
  "WorkerID s = ucast (drop_bit 17 (s AND 0x3E0000))"

definition ProcessID :: "Snowflake \<Rightarrow> 8 word" where
  "ProcessID s = ucast (drop_bit 12 (s AND 0x1F000))"

definition Sequence :: "Snowflake \<Rightarrow> 16 word" where
  "Sequence s = ucast (s AND 0xFFF)"

definition String :: "Snowflake \<Rightarrow> string" where
  "String s = FormatUint s"

definition Value :: "Snowflake \<Rightarrow> 64 word" where
  "Value s = s"

text \<open>
  In \<open>s&(1<<i)\<close> the constant \<open>1\<close> has the type of \<open>s\<close>; \<open>i < 64\<close> is tested
  first, so the shift count is below the width wherever the shift is evaluated.
\<close>

definition Bit :: "Snowflake \<Rightarrow> 8 word \<Rightarrow> Bit" where
  "Bit s i = (i < 64 \<and> s AND push_bit (unat i) 1 \<noteq> 0)"

definition Bitmap :: "Snowflake \<Rightarrow> Bitmap" where
  "Bitmap s = map (\<lambda>i. s AND push_bit i 1 \<noteq> 0) [0..<64]"

text \<open>
  \<open>MarshalJSON\<close> returns the bytes and the error (always \<open>nil\<close>, here \<open>None\<close>).
  \<open>tab\<close> is the Unicode table of \<open>strconv.IsPrint\<close>.
\<close>

definition MarshalJSON :: "(int \<Rightarrow> bool) \<Rightarrow> Snowflake \<Rightarrow> string \<times> snowflake_error option" where
  "MarshalJSON tab s = (Quote tab (FormatUint s), None)"

definition ParseString :: "string \<Rightarrow> snowflake_error + Snowflake" where
  "ParseString s =
     (case ParseUint s of
        Inl e \<Rightarrow>
          Inl (StringParseError \<lparr>message = ''unable to parse string as integer'', err = e\<rparr>)
      | Inr snowflake \<Rightarrow> Inr snowflake)"

text \<open>
  \<open>t.UnixMilli() - int64(Epoch)\<close> is an int64 subtraction, \<open><< 22\<close> a shift of that
  int64, and \<open>Snowflake(...)\<close> keeps the 64 bits: all three act on the bit pattern.
\<close>

definition ParseTime :: "64 word \<Rightarrow> Time \<Rightarrow> Snowflake" where
  "ParseTime Epoch t = push_bit 22 (UnixMilli_of t - Epoch)"

definition ParseJSON :: "bool \<Rightarrow> string \<Rightarrow> snowflake_error + Snowflake" where
  "ParseJSON AllowUnquoted b =
     (if b = JSON_NULL \<or> b = JSON_ZERO \<or> b = JSON_ZERO_QUOTED then Inr 0
      else
        let s = b in
        (case Unquote s of
           Inl e \<Rightarrow>
             if \<not> AllowUnquoted then
               Inl (UnquotedIntegerError
                 \<lparr>message = ''unquoted integer but unquoted integers are not allowed'',
                  err = e\<rparr>)
             else ParseString s
         | Inr snowflake \<Rightarrow> ParseString snowflake))"

text \<open>
  \<open>UnmarshalJSON\<close> writes through its receiver \<open>*s\<close>: the model takes the value
  stored there and returns the value stored afterwards, beside the error.
\<close>

definition UnmarshalJSON :: "bool \<Rightarrow> Snowflake \<Rightarrow> string \<Rightarrow> Snowflake \<times> snowflake_error option" where
  "UnmarshalJSON AllowUnquoted s b =
     (case ParseJSON AllowUnquoted b of
        Inl e \<Rightarrow> (s, Some e)
      | Inr snowflake \<Rightarrow> (snowflake, None))"

definition New :: Snowflake where
  "New = 0"

section \<open>The textual forms of the specification\<close>

text \<open>
  The decimal form of the specification: a non-empty sequence of the ASCII digits
  \<open>0\<close> to \<open>9\<close>, and the number it denotes; a valid one denotes at most \<open>2^64 - 1\<close>.
\<close>

definition is_digit :: "char \<Rightarrow> bool" where
  "is_digit c = (c \<in> set ''0123456789'')"

definition digit_value :: "char \<Rightarrow> nat" where
  "digit_value c = nat (bv c - bv (CHR ''0''))"

definition decimal_value :: "string \<Rightarrow> nat" where
  "decimal_value s = foldl (\<lambda>n c. 10 * n + digit_value c) 0 s"

definition decimal_form :: "string \<Rightarrow> bool" where
  "decimal_form s = (s \<noteq> [] \<and> list_all is_digit s)"

definition valid_decimal :: "string \<Rightarrow> bool" where
  "valid_decimal s = (decimal_form s \<and> decimal_value s \<le> 2 ^ 64 - 1)"


text \<open>The number denoted by the digits \<open>cs\<close> written after a number \<open>a\<close>.\<close>

fun dec_from :: "nat \<Rightarrow> string \<Rightarrow> nat" where
  "dec_from a [] = a"
| "dec_from a (c # cs) = dec_from (10 * a + digit_value c) cs"



section \<open>Decimal strings: \<open>ParseUint\<close> and \<open>FormatUint\<close>\<close>

lemma is_digit_iff: "is_digit c \<longleftrightarrow> 48 \<le> bv c \<and> bv c \<le> 57"
proof
  assume "is_digit c"
  then show "48 \<le> bv c \<and> bv c \<le> 57"
    by (auto simp add: is_digit_def bv_def)
next
  assume h: "48 \<le> bv c \<and> bv c \<le> 57"
  then have "bv c \<in> {48, 49, 50, 51, 52, 53, 54, 55, 56, 57}"
    by simp arith
  then have "c \<in> char_of ` {48 :: int, 49, 50, 51, 52, 53, 54, 55, 56, 57}"
    unfolding bv_def by (metis char_of_char imageI)
  then show "is_digit c"
    unfolding is_digit_def by (auto simp add: char_of_def)
qed

lemma digit_of_digit:
  assumes "is_digit c"
  shows "digit_of c = Some (int (digit_value c))" and "digit_value c < 10"
proof -
  from assms have r: "48 \<le> bv c \<and> bv c \<le> 57" by (simp add: is_digit_iff)
  have z: "bv (CHR ''0'') = 48" and n: "bv (CHR ''9'') = 57" by (simp_all add: bv_def)
  from r show "digit_of c = Some (int (digit_value c))"
    by (simp add: digit_of_def digit_value_def z n)
  from r show "digit_value c < 10"
    unfolding digit_value_def z by arith
qed

lemma digit_of_nondigit:
  assumes "\<not> is_digit c" and "digit_of c = Some d"
  shows "10 \<le> d"
  using assms unfolding is_digit_iff digit_of_def
  by (auto simp add: bv_def split: if_splits)


lemma decimal_value_dec_from: "decimal_value s = dec_from 0 s"
proof -
  have "foldl (\<lambda>n c. 10 * n + digit_value c) a s = dec_from a s" for a
    by (induction s arbitrary: a) simp_all
  then show ?thesis by (simp add: decimal_value_def)
qed

lemma dec_from_ge: "a \<le> dec_from a cs"
proof (induction cs arbitrary: a)
  case Nil
  show ?case by simp
next
  case (Cons c cs)
  have "a \<le> 10 * a + digit_value c" by simp
  also have "\<dots> \<le> dec_from (10 * a + digit_value c) cs" by (rule Cons.IH)
  finally show ?case by simp
qed

lemma cutoff_val: "unat cutoff = 1844674407370955162"
  by (simp add: cutoff_def maxUint64_def)

lemma parse_step:
  fixes n :: "64 word"
  assumes "\<not> cutoff \<le> n" and "d < 10"
  shows "unat (n * 10) = unat n * 10"
    and "n * 10 + of_nat d < n * 10 \<longleftrightarrow> 2 ^ 64 \<le> unat n * 10 + d"
    and "\<not> 2 ^ 64 \<le> unat n * 10 + d \<Longrightarrow> unat (n * 10 + of_nat d) = unat n * 10 + d"
proof -
  from assms(1) have "unat n < unat cutoff"
    by (simp add: word_le_nat_alt)
  then have b: "unat n * 10 < 2 ^ 64"
    by (simp add: cutoff_val)
  have "unat (n * 10) = (unat n * unat (10 :: 64 word)) mod 2 ^ 64"
    by (simp add: unat_word_ariths)
  with b show m: "unat (n * 10) = unat n * 10"
    by simp
  have d: "unat (of_nat d :: 64 word) = d"
    using assms(2) by (simp add: unat_of_nat)
  have "n * 10 \<le> n * 10 + of_nat d \<longleftrightarrow> unat (n * 10) + unat (of_nat d :: 64 word) < 2 ^ 64"
    using no_olen_add_nat [of "n * 10" "of_nat d"] by simp
  then show "n * 10 + of_nat d < n * 10 \<longleftrightarrow> 2 ^ 64 \<le> unat n * 10 + d"
    unfolding m d by (simp add: not_le [symmetric])
  assume "\<not> 2 ^ 64 \<le> unat n * 10 + d"
  then have "unat (n * 10) + unat (of_nat d :: 64 word) < 2 ^ 64"
    unfolding m d by simp
  then have "unat (n * 10 + of_nat d) = unat (n * 10) + unat (of_nat d :: 64 word)"
    using unat_add_lem [of "n * 10" "of_nat d"] by simp
  then show "unat (n * 10 + of_nat d) = unat n * 10 + d"
    unfolding m d .
qed

lemma maxVal_val: "maxVal = - 1"
  by (simp add: maxVal_def)


lemma ParseUint_loop_Inr:
  "ParseUint_loop s0 n cs = Inr v \<longleftrightarrow>
     list_all is_digit cs \<and> dec_from (unat n) cs < 2 ^ 64 \<and> unat v = dec_from (unat n) cs"
proof (induction cs arbitrary: n)
  case Nil
  have "unat n < 2 ^ 64" using unsigned_less [of n] by simp
  then show ?case by (auto simp add: word_unat_eq_iff)
next
  case (Cons c cs)
  show ?case
  proof (cases "is_digit c")
    case False
    then have "\<And>e. ParseUint_loop s0 n (c # cs) \<noteq> Inr e"
      by (auto simp add: Let_def split: option.splits dest: digit_of_nondigit)
    with False show ?thesis by simp
  next
    case isd: True
    note dg = digit_of_digit [OF isd]
    show ?thesis
    proof (cases "cutoff \<le> n")
      case big: True
      then have "unat cutoff \<le> unat n" by (simp add: word_le_nat_alt)
      then have "2 ^ 64 \<le> 10 * unat n + digit_value c"
        by (simp add: cutoff_val)
      also have "\<dots> \<le> dec_from (10 * unat n + digit_value c) cs"
        by (rule dec_from_ge)
      finally have "\<not> dec_from (unat n) (c # cs) < 2 ^ 64" by simp
      with big dg show ?thesis by simp
    next
      case small: False
      note st = parse_step [OF small dg(2)]
      show ?thesis
      proof (cases "2 ^ 64 \<le> unat n * 10 + digit_value c")
        case True
        also have "unat n * 10 + digit_value c \<le> dec_from (10 * unat n + digit_value c) cs"
          using dec_from_ge [of "10 * unat n + digit_value c" cs] by (simp add: mult.commute)
        finally have "\<not> dec_from (unat n) (c # cs) < 2 ^ 64" by simp
        with small dg st(2) True show ?thesis by (simp add: Let_def)
      next
        case False
        have u: "unat (n * 10 + of_nat (digit_value c)) = 10 * unat n + digit_value c"
          using st(3) [OF False] by (simp add: mult.commute)
        have nl: "\<not> n * 10 + of_nat (digit_value c) < n * 10"
          using st(2) False by simp
        from small dg isd show ?thesis
          by (simp add: Let_def maxVal_val Cons.IH u nl)
      qed
    qed
  qed
qed

lemma ParseUint_Inr:
  "ParseUint s = Inr v \<longleftrightarrow> valid_decimal s \<and> unat v = decimal_value s"
proof -
  have "decimal_value s \<le> 2 ^ 64 - 1 \<longleftrightarrow> decimal_value s < 2 ^ 64"
    by simp arith
  then show ?thesis
    by (auto simp add: ParseUint_def ParseUint_loop_Inr valid_decimal_def decimal_form_def
        decimal_value_dec_from)
qed

lemma ParseUint_Inl:
  "(\<exists>e. ParseUint s = Inl e) \<longleftrightarrow> \<not> valid_decimal s"
proof -
  have "unat (word_of_nat (decimal_value s) :: 64 word) = decimal_value s"
    if "valid_decimal s"
    using that by (simp add: valid_decimal_def unat_of_nat take_bit_nat_eq_self)
  then have "valid_decimal s \<longleftrightarrow> (\<exists>v. ParseUint s = Inr v)"
    unfolding ParseUint_Inr by blast
  then show ?thesis
    by (cases "ParseUint s") auto
qed

lemma FormatUint_digits: "list_all is_digit (FormatUint u)"
proof (induction u rule: FormatUint.induct)
  case (1 u)
  have d: "is_digit (digits ! k)" if "k < 10" for k
  proof -
    from that have "k \<in> {0, 1, 2, 3, 4, 5, 6, 7, 8, 9}" by auto
    then show ?thesis by (auto simp add: digits_def is_digit_def)
  qed
  have m: "unat (u mod 10) < 10" by (simp add: unat_mod)
  show ?case
  proof (cases "u < 10")
    case True
    then have "unat u < 10" by (simp add: word_less_nat_alt)
    with True show ?thesis by (subst FormatUint.simps) (simp add: d)
  next
    case False
    with 1 m show ?thesis by (subst FormatUint.simps) (simp add: d)
  qed
qed

lemma ParseUint_loop_Inl:
  "ParseUint_loop s0 n cs = Inl e \<Longrightarrow>
     e = NumError ''ParseUint'' s0 ErrSyntax \<or> e = NumError ''ParseUint'' s0 ErrRange"
  by (induction cs arbitrary: n)
    (auto simp add: Let_def syntaxError_def rangeError_def fnParseUint_def
      split: option.splits if_splits)

lemma ParseUint_error:
  "ParseUint s = Inl e \<Longrightarrow>
     e = NumError ''ParseUint'' s ErrSyntax \<or> e = NumError ''ParseUint'' s ErrRange"
  by (auto simp add: ParseUint_def syntaxError_def fnParseUint_def
      split: if_splits dest: ParseUint_loop_Inl)

section \<open>Parsing decimal strings\<close>

text \<open>
  C2. \<open>ParseString s\<close> succeeds exactly when \<open>s\<close> is a non-empty sequence of the
  ASCII digits 0 to 9 that denotes a value of at most \<open>2^64 - 1\<close>, and then returns
  that value as the snowflake. For every other string (empty, with a byte that is not a
  digit, or denoting a larger value) it fails with a \<open>StringParseError\<close> whose
  original error is the error \<open>strconv.ParseUint\<close> returned: a \<open>NumError\<close> of
  \<open>ParseUint\<close> for \<open>s\<close> with \<open>ErrSyntax\<close> or \<open>ErrRange\<close>.
\<close>

theorem ParseString_decimal:
  "(ParseString s = Inr v \<longleftrightarrow> valid_decimal s \<and> unat v = decimal_value s) \<and>
   (\<not> valid_decimal s \<longrightarrow>
      (\<exists>e. ParseUint s = Inl e \<and>
           (e = NumError ''ParseUint'' s ErrSyntax \<or> e = NumError ''ParseUint'' s ErrRange) \<and>
           ParseString s =
             Inl (StringParseError \<lparr>message = ''unable to parse string as integer'', err = e\<rparr>) \<and>
           OriginalError \<lparr>message = ''unable to parse string as integer'', err = e\<rparr> = e))"
proof (intro conjI impI)
  show "ParseString s = Inr v \<longleftrightarrow> valid_decimal s \<and> unat v = decimal_value s"
    using ParseUint_Inr [of s v]
    by (cases "ParseUint s") (auto simp add: ParseString_def)
next
  assume "\<not> valid_decimal s"
  then obtain e where e: "ParseUint s = Inl e"
    using ParseUint_Inl [of s] by blast
  from ParseUint_error [OF e] e
  show "\<exists>e. ParseUint s = Inl e \<and>
           (e = NumError ''ParseUint'' s ErrSyntax \<or> e = NumError ''ParseUint'' s ErrRange) \<and>
           ParseString s =
             Inl (StringParseError \<lparr>message = ''unable to parse string as integer'', err = e\<rparr>) \<and>
           OriginalError \<lparr>message = ''unable to parse string as integer'', err = e\<rparr> = e"
    by (simp add: ParseString_def OriginalError_def)
qed

theorem ParseString_decimal_witness:
  "valid_decimal ''1000'' \<and> ParseString ''1000'' = Inr 1000 \<and>
   \<not> valid_decimal ''-1'' \<and>
   (\<exists>e. ParseString ''-1'' =
      Inl (StringParseError \<lparr>message = ''unable to parse string as integer'', err = e\<rparr>))"
proof -
  have v: "valid_decimal ''1000''"
    by (simp add: valid_decimal_def decimal_form_def is_digit_def decimal_value_def
        digit_value_def bv_def)
  have u: "unat (1000 :: 64 word) = decimal_value ''1000''"
    by (simp add: decimal_value_def digit_value_def bv_def)
  have n: "\<not> valid_decimal ''-1''"
    by (simp add: valid_decimal_def decimal_form_def is_digit_def)
  from ParseString_decimal [of "''1000''" 1000] v u
  have a: "ParseString ''1000'' = Inr 1000" by blast
  from ParseString_decimal [of "''-1''"] n
  have b: "\<exists>e. ParseString ''-1'' =
      Inl (StringParseError \<lparr>message = ''unable to parse string as integer'', err = e\<rparr>)"
    by blast
  from v a n b show ?thesis by blast
qed


section \<open>Fields, bits and times\<close>

lemma mask_0xFFF: "(0xFFF :: 64 word) = mask 12"
  by (simp add: mask_eq_exp_minus_1)

lemma mask_0x1F000: "(0x1F000 :: 64 word) = push_bit 12 (mask 5)"
  by (simp add: mask_eq_exp_minus_1 push_bit_eq_mult)

lemma mask_0x3E0000: "(0x3E0000 :: 64 word) = push_bit 17 (mask 5)"
  by (simp add: mask_eq_exp_minus_1 push_bit_eq_mult)

lemma mask_0x3FFFFF: "(0x3FFFFF :: 64 word) = mask 22"
  by (simp add: mask_eq_exp_minus_1)

lemma field_bits:
  fixes s :: "64 word"
  shows "drop_bit 12 (s AND push_bit 12 (mask 5)) = take_bit 5 (drop_bit 12 s)"
    and "drop_bit 17 (s AND push_bit 17 (mask 5)) = take_bit 5 (drop_bit 17 s)"
  by (rule bit_word_eqI; auto simp add: bit_simps)+

lemma Sequence_ucast: "(ucast (Sequence s) :: 64 word) = s AND 0xFFF"
  unfolding Sequence_def mask_0xFFF
  by (rule bit_word_eqI) (auto simp add: bit_simps)

lemma Sequence_unat: "unat (Sequence s) = unat s mod 2 ^ 12"
  unfolding Sequence_def mask_0xFFF
  by (simp add: unsigned_ucast_eq unsigned_take_bit_eq take_bit_eq_mod unat_mod unat_div
      flip: take_bit_eq_mask)

lemma ProcessID_ucast: "(ucast (ProcessID s) :: 64 word) = drop_bit 12 (s AND 0x1F000)"
  unfolding ProcessID_def mask_0x1F000
  by (rule bit_word_eqI) (auto simp add: bit_simps)

lemma ProcessID_unat: "unat (ProcessID s) = unat s div 2 ^ 12 mod 2 ^ 5"
  unfolding ProcessID_def mask_0x1F000 field_bits
  by (simp add: unsigned_ucast_eq unsigned_take_bit_eq unsigned_drop_bit_eq take_bit_eq_mod
      drop_bit_eq_div unat_mod unat_div)

lemma WorkerID_ucast: "(ucast (WorkerID s) :: 64 word) = drop_bit 17 (s AND 0x3E0000)"
  unfolding WorkerID_def mask_0x3E0000
  by (rule bit_word_eqI) (auto simp add: bit_simps)

lemma WorkerID_unat: "unat (WorkerID s) = unat s div 2 ^ 17 mod 2 ^ 5"
  unfolding WorkerID_def mask_0x3E0000 field_bits
  by (simp add: unsigned_ucast_eq unsigned_take_bit_eq unsigned_drop_bit_eq take_bit_eq_mod
      drop_bit_eq_div unat_mod unat_div)

lemma UnixMilli_unat: "unat (UnixMilli Epoch s) = (unat s div 2 ^ 22 + unat Epoch) mod 2 ^ 64"
  unfolding UnixMilli_def
  by (simp add: unat_word_ariths unsigned_drop_bit_eq drop_bit_eq_div mod_add_left_eq)

text \<open>
  C6. For every snowflake \<open>v\<close> and every \<open>Epoch\<close>: \<open>Sequence v\<close> is \<open>v & 0xFFF\<close>,
  \<open>ProcessID v\<close> is \<open>(v & 0x1F000) >> 12\<close>, \<open>WorkerID v\<close> is
  \<open>(v & 0x3E0000) >> 17\<close>, and the conversions to uint16 and uint8 lose nothing
  (widened back to 64 bits the results are these values); \<open>UnixMilli v\<close> is
  \<open>(v >> 22) + Epoch\<close> with wrapping unsigned 64-bit addition. As numbers: bits 0 to 11,
  bits 12 to 16, bits 17 to 21, and the sum modulo \<open>2^64\<close>.
\<close>

theorem field_accessors:
  "ucast (Sequence v) = v AND 0xFFF \<and>
   ucast (ProcessID v) = drop_bit 12 (v AND 0x1F000) \<and>
   ucast (WorkerID v) = drop_bit 17 (v AND 0x3E0000) \<and>
   UnixMilli Epoch v = drop_bit 22 v + Epoch \<and>
   unat (Sequence v) = unat v mod 2 ^ 12 \<and>
   unat (ProcessID v) = unat v div 2 ^ 12 mod 2 ^ 5 \<and>
   unat (WorkerID v) = unat v div 2 ^ 17 mod 2 ^ 5 \<and>
   unat (UnixMilli Epoch v) = (unat v div 2 ^ 22 + unat Epoch) mod 2 ^ 64"
  using Sequence_ucast [of v] ProcessID_ucast [of v] WorkerID_ucast [of v]
    Sequence_unat [of v] ProcessID_unat [of v] WorkerID_unat [of v] UnixMilli_unat [of Epoch v]
  by (simp only: UnixMilli_def simp_thms)

text \<open>
  C7. For every snowflake \<open>v\<close> and every uint8 index \<open>i\<close>: if \<open>i < 64\<close> then
  \<open>Bit v i\<close> holds exactly when \<open>(v >> i) & 1 = 1\<close>; if \<open>64 \<le> i\<close> then \<open>Bit v i\<close> is
  false.
\<close>

theorem Bit_index:
  "(i < 64 \<longrightarrow> Bit v i = (drop_bit (unat i) v AND 1 = 1)) \<and>
   (64 \<le> i \<longrightarrow> Bit v i = False)"
proof -
  have a: "(v AND push_bit (unat i) 1 \<noteq> 0) = bit v (unat i)"
    by (simp add: bit_iff_and_push_bit_not_eq_0)
  have b: "(drop_bit (unat i) v AND 1 = 1) = bit v (unat i)"
    by (simp add: bit_iff_and_drop_bit_eq_1)
  show ?thesis
    unfolding Bit_def a b by (auto simp add: not_le [symmetric])
qed

theorem Bit_index_witness:
  "(3 :: 8 word) < 64 \<and> Bit 175928847299117209 3 \<and>
   (64 :: 8 word) \<le> 70 \<and> \<not> Bit 175928847299117209 70"
proof -
  have a: "(3 :: 8 word) < 64" and b: "(64 :: 8 word) \<le> 70" by simp_all
  have c: "drop_bit (unat (3 :: 8 word)) (175928847299117209 :: 64 word) AND 1 = 1"
    by simp
  from Bit_index [of 3 175928847299117209] a c have "Bit 175928847299117209 3" by blast
  moreover from Bit_index [of 70 175928847299117209] b have "\<not> Bit 175928847299117209 70" by blast
  ultimately show ?thesis using a b by blast
qed

lemma ParseTime_low: "ParseTime Epoch t AND 0x3FFFFF = 0"
  unfolding ParseTime_def mask_0x3FFFFF
  by (rule bit_word_eqI) (auto simp add: bit_simps)

lemma ParseTime_signed:
  "ParseTime Epoch t = word_of_int ((sint (UnixMilli_of t) - sint Epoch) * 2 ^ 22)"
  unfolding ParseTime_def
  by (simp add: push_bit_eq_mult)

lemma ParseTime_fields:
  "Sequence (ParseTime Epoch t) = 0" "ProcessID (ParseTime Epoch t) = 0"
  "WorkerID (ParseTime Epoch t) = 0"
  unfolding Sequence_def ProcessID_def WorkerID_def ParseTime_def
    mask_0xFFF mask_0x1F000 mask_0x3E0000
  by (rule bit_word_eqI; auto simp add: bit_simps)+

text \<open>
  C9. For every time \<open>t\<close> and every \<open>Epoch\<close>, \<open>ParseTime t\<close> is the signed 64-bit
  difference of the Unix milliseconds of \<open>t\<close> and \<open>Epoch\<close>, shifted left by 22 bits and
  read as an unsigned 64-bit value: as a number, that difference times \<open>2^22\<close> modulo
  \<open>2^64\<close> (a time before the epoch wraps, it is no error). The low 22 bits of the result
  are zero: worker ID, process ID and sequence are 0.
\<close>

theorem ParseTime_value:
  "ParseTime Epoch t = word_of_int ((sint (UnixMilli_of t) - sint Epoch) * 2 ^ 22) \<and>
   uint (ParseTime Epoch t) = ((sint (UnixMilli_of t) - sint Epoch) * 2 ^ 22) mod 2 ^ 64 \<and>
   ParseTime Epoch t AND 0x3FFFFF = 0 \<and>
   WorkerID (ParseTime Epoch t) = 0 \<and>
   ProcessID (ParseTime Epoch t) = 0 \<and>
   Sequence (ParseTime Epoch t) = 0"
proof -
  have w: "uint (word_of_int k :: 64 word) = k mod 2 ^ 64" for k
    by (simp add: uint_word_of_int)
  have "uint (ParseTime Epoch t) = ((sint (UnixMilli_of t) - sint Epoch) * 2 ^ 22) mod 2 ^ 64"
    unfolding ParseTime_signed by (rule w)
  then show ?thesis
    using ParseTime_signed [of Epoch t] ParseTime_low [of Epoch t] ParseTime_fields [of Epoch t]
    by simp
qed

lemma time_roundtrip_word:
  assumes "unat (m - Epoch) < 2 ^ 42"
  shows "UnixMilli Epoch (ParseTime Epoch (time_UnixMilli m)) = m"
proof -
  have "take_bit 42 (m - Epoch) = m - Epoch"
    by (metis assms unsigned_take_bit_eq word_eq_iff_unsigned take_bit_nat_eq_self)
  moreover have "drop_bit 22 (push_bit 22 w) = take_bit 42 w" for w :: "64 word"
    by (rule bit_word_eqI) (auto simp add: bit_simps)
  ultimately have "drop_bit 22 (push_bit 22 (m - Epoch)) = m - Epoch"
    by simp
  then show ?thesis
    unfolding ParseTime_def UnixMilli_def by simp
qed

text \<open>
  C10. For every time \<open>t\<close> whose Unix milliseconds \<open>m\<close> satisfy
  \<open>Epoch \<le> m < Epoch + 2^42\<close>, \<open>UnixMilli (ParseTime t)\<close> is \<open>m\<close>.
\<close>

theorem time_roundtrip:
  assumes "uint Epoch \<le> sint (UnixMilli_of t)"
    and "sint (UnixMilli_of t) < uint Epoch + 2 ^ 42"
  shows "UnixMilli Epoch (ParseTime Epoch t) = UnixMilli_of t \<and>
         uint (UnixMilli Epoch (ParseTime Epoch t)) = sint (UnixMilli_of t)"
proof -
  obtain m where t: "t = time_UnixMilli m" by (cases t)
  from assms have h1: "uint Epoch \<le> sint m" and h2: "sint m < uint Epoch + 2 ^ 42"
    by (simp_all add: t)
  have "0 \<le> uint Epoch" by (rule uint_nonnegative)
  with h1 have nn: "0 \<le> sint m" by linarith
  have "sint m < 2 ^ 64"
    using sint_lt [of m] by simp
  with nn have "take_bit 64 (sint m) = sint m"
    by (simp add: take_bit_int_eq_self)
  then have sm: "sint m = uint m"
    using uint_sint [of m] by simp
  have "uint (m - Epoch) = uint m - uint Epoch"
    using h1 sm by (simp add: uint_sub_lem)
  with h2 sm have "uint (m - Epoch) < 2 ^ 42" by linarith
  then have "int (unat (m - Epoch)) < int (2 ^ 42)"
    by (simp only: uint_nat of_nat_power of_nat_numeral)
  then have "unat (m - Epoch) < 2 ^ 42"
    by (simp only: of_nat_less_iff)
  from time_roundtrip_word [OF this] sm show ?thesis
    unfolding t by simp
qed

theorem time_roundtrip_witness:
  "uint default_Epoch \<le> sint (UnixMilli_of (time_UnixMilli 1420070400005)) \<and>
   sint (UnixMilli_of (time_UnixMilli 1420070400005)) < uint default_Epoch + 2 ^ 42 \<and>
   UnixMilli default_Epoch (ParseTime default_Epoch (time_UnixMilli 1420070400005)) = 1420070400005"
proof -
  have a: "uint default_Epoch \<le> sint (UnixMilli_of (time_UnixMilli 1420070400005))"
    by (simp add: default_Epoch_def)
  have b: "sint (UnixMilli_of (time_UnixMilli 1420070400005)) < uint default_Epoch + 2 ^ 42"
    by (simp add: default_Epoch_def)
  from time_roundtrip [OF a b] a b show ?thesis by simp
qed

section \<open>JSON\<close>

text \<open>
  C4. For both values of \<open>AllowUnquoted\<close>, \<open>ParseJSON\<close> of exactly the bytes \<open>null\<close>,
  exactly the byte \<open>0\<close>, or exactly the bytes \<open>"0"\<close> is the snowflake 0 with no error.
  The test comes before unquoting and digit parsing, and does not read the flag: the
  later steps alone reject \<open>null\<close> (it cannot be unquoted and is no decimal string),
  and \<open>0\<close> cannot be unquoted.
\<close>

theorem ParseJSON_zero:
  "ParseJSON AllowUnquoted ''null'' = Inr 0 \<and>
   ParseJSON AllowUnquoted ''0'' = Inr 0 \<and>
   ParseJSON AllowUnquoted [dquote, CHR ''0'', dquote] = Inr 0 \<and>
   Unquote ''null'' = Inl ErrSyntax \<and>
   Unquote ''0'' = Inl ErrSyntax \<and>
   ParseString ''null'' =
     Inl (StringParseError \<lparr>message = ''unable to parse string as integer'',
       err = NumError ''ParseUint'' ''null'' ErrSyntax\<rparr>)"
proof -
  have "Unquote ''null'' = Inl ErrSyntax" by code_simp
  moreover have "Unquote ''0'' = Inl ErrSyntax" by code_simp
  moreover have "ParseString ''null'' =
     Inl (StringParseError \<lparr>message = ''unable to parse string as integer'',
       err = NumError ''ParseUint'' ''null'' ErrSyntax\<rparr>)" by code_simp
  ultimately show ?thesis
    by (simp add: ParseJSON_def JSON_NULL_def JSON_ZERO_def JSON_ZERO_QUOTED_def)
qed

text \<open>
  C3. For every stored value \<open>s\<close> and every input \<open>b\<close>: when \<open>ParseJSON b\<close> succeeds,
  \<open>UnmarshalJSON\<close> stores its result and returns no error; when it fails,
  \<open>UnmarshalJSON\<close> returns that same error and the stored value is still \<open>s\<close>.
\<close>

theorem UnmarshalJSON_atomic:
  "(ParseJSON AllowUnquoted b = Inr v \<longrightarrow>
      UnmarshalJSON AllowUnquoted s b = (v, None)) \<and>
   (ParseJSON AllowUnquoted b = Inl e \<longrightarrow>
      UnmarshalJSON AllowUnquoted s b = (s, Some e))"
  by (simp add: UnmarshalJSON_def)

theorem UnmarshalJSON_atomic_witness:
  "ParseJSON True ''not-a-number'' =
     Inl (StringParseError \<lparr>message = ''unable to parse string as integer'',
       err = NumError ''ParseUint'' ''not-a-number'' ErrSyntax\<rparr>) \<and>
   UnmarshalJSON True 175928847299117209 ''not-a-number'' =
     (175928847299117209,
      Some (StringParseError \<lparr>message = ''unable to parse string as integer'',
        err = NumError ''ParseUint'' ''not-a-number'' ErrSyntax\<rparr>)) \<and>
   ParseJSON False [dquote, CHR ''1'', CHR ''0'', dquote] = Inr 10 \<and>
   UnmarshalJSON False 175928847299117209 [dquote, CHR ''1'', CHR ''0'', dquote] = (10, None)"
proof -
  have a: "ParseJSON True ''not-a-number'' =
     Inl (StringParseError \<lparr>message = ''unable to parse string as integer'',
       err = NumError ''ParseUint'' ''not-a-number'' ErrSyntax\<rparr>)"
    by code_simp
  have b: "ParseJSON False [dquote, CHR ''1'', CHR ''0'', dquote] = Inr 10"
    by code_simp
  from UnmarshalJSON_atomic [where AllowUnquoted = True and b = "''not-a-number''"
      and s = 175928847299117209] a
  have c: "UnmarshalJSON True 175928847299117209 ''not-a-number'' =
     (175928847299117209,
      Some (StringParseError \<lparr>message = ''unable to parse string as integer'',
        err = NumError ''ParseUint'' ''not-a-number'' ErrSyntax\<rparr>))"
    by blast
  from UnmarshalJSON_atomic [where AllowUnquoted = False
      and b = "[dquote, CHR ''1'', CHR ''0'', dquote]" and s = 175928847299117209] b
  have d: "UnmarshalJSON False 175928847299117209 [dquote, CHR ''1'', CHR ''0'', dquote] =
     (10, None)"
    by blast
  from a b c d show ?thesis by blast
qed


section \<open>Decimal strings: the round trip and the JSON form written\<close>

lemma dec_from_snoc: "dec_from a (xs @ [c]) = 10 * dec_from a xs + digit_value c"
  by (induction xs arbitrary: a) simp_all

lemma digits_nth:
  assumes "k < 10"
  shows "is_digit (digits ! k)" and "digit_value (digits ! k) = k"
    and "digits ! k = CHR ''0'' \<longleftrightarrow> k = 0"
proof -
  from assms have "k \<in> {0, 1, 2, 3, 4, 5, 6, 7, 8, 9}" by auto
  then show "is_digit (digits ! k)" and "digit_value (digits ! k) = k"
    and "digits ! k = CHR ''0'' \<longleftrightarrow> k = 0"
    by (auto simp add: digits_def is_digit_def digit_value_def bv_def)
qed

lemma FormatUint_small: "u < 10 \<Longrightarrow> FormatUint u = [digits ! unat u]"
  by (subst FormatUint.simps) simp

lemma FormatUint_large:
  "\<not> u < 10 \<Longrightarrow> FormatUint u = FormatUint (u div 10) @ [digits ! unat (u mod 10)]"
  by (subst FormatUint.simps) simp

lemma FormatUint_nonempty: "FormatUint u \<noteq> []"
  by (cases "u < 10") (simp_all add: FormatUint_small FormatUint_large)

lemma unat_mod10: "unat (u mod 10 :: 64 word) = unat u mod 10" "unat (u mod 10 :: 64 word) < 10"
  by (simp_all add: unat_mod)

lemma FormatUint_value: "decimal_value (FormatUint u) = unat u"
proof (induction u rule: FormatUint.induct)
  case (1 u)
  show ?case
  proof (cases "u < 10")
    case True
    then have "unat u < 10" by (simp add: word_less_nat_alt)
    then show ?thesis
      by (simp add: FormatUint_small [OF True] decimal_value_dec_from digits_nth)
  next
    case False
    from 1 [OF False] have "dec_from 0 (FormatUint (u div 10)) = unat u div 10"
      by (simp add: decimal_value_dec_from unat_div)
    then show ?thesis
      by (simp add: FormatUint_large [OF False] decimal_value_dec_from dec_from_snoc
          digits_nth unat_mod10)
  qed
qed

lemma FormatUint_leading: "hd (FormatUint u) = CHR ''0'' \<longleftrightarrow> u = 0"
proof (induction u rule: FormatUint.induct)
  case (1 u)
  show ?case
  proof (cases "u < 10")
    case True
    then have "unat u < 10" by (simp add: word_less_nat_alt)
    then show ?thesis
      by (simp add: FormatUint_small [OF True] digits_nth unat_eq_0)
  next
    case False
    then have "10 \<le> unat u" by (simp add: word_less_nat_alt)
    then have "unat (u div 10) \<noteq> 0" by (simp add: unat_div)
    then have "u div 10 \<noteq> 0" by (simp add: unat_eq_0)
    moreover from False have "u \<noteq> 0" by auto
    ultimately show ?thesis
      using 1 [OF False] by (simp add: FormatUint_large [OF False] FormatUint_nonempty)
  qed
qed

lemma FormatUint_valid: "valid_decimal (FormatUint u)"
proof -
  have "unat u < 2 ^ 64" using unsigned_less [of u] by simp
  then have "unat u \<le> 2 ^ 64 - 1" by simp
  then show ?thesis
    by (simp add: valid_decimal_def decimal_form_def FormatUint_nonempty FormatUint_digits
        FormatUint_value)
qed

text \<open>
  C8. Round trip: for every 64-bit value \<open>v\<close>, \<open>ParseString\<close> of the decimal string
  \<open>String v\<close> succeeds and returns exactly \<open>v\<close>.
\<close>

theorem String_roundtrip: "ParseString (String v) = Inr v"
  using FormatUint_valid [of v] FormatUint_value [of v] ParseUint_Inr [of "FormatUint v" v]
  by (simp add: ParseString_def String_def)

lemma appendEscapedRune_digit:
  assumes "is_digit c"
  shows "appendEscapedRune tab buf (bv c) dquote = buf @ [c]"
proof -
  from assms have r: "48 \<le> bv c \<and> bv c \<le> 57" by (simp add: is_digit_iff)
  have q: "bv dquote = 34" "bv backslash = 92"
    by (simp_all add: bv_def dquote_def backslash_def)
  from r have m: "bv c mod 2 ^ 32 = bv c" by simp
  have c: "char_of (bv c) = c" by (simp add: bv_def)
  from r q m c show ?thesis
    by (simp add: appendEscapedRune_def IsPrint_def AppendRune_def Let_def)
qed

lemma appendQuoted_loop_digits:
  "list_all is_digit s \<Longrightarrow> appendQuoted_loop tab buf s dquote = buf @ s"
proof (induction s arbitrary: buf)
  case Nil
  show ?case by (subst appendQuoted_loop.simps) simp
next
  case (Cons c cs)
  then have d: "is_digit c" and ds: "list_all is_digit cs" by simp_all
  from d have r: "48 \<le> bv c \<and> bv c \<le> 57" by (simp add: is_digit_iff)
  then have "\<not> RuneSelf \<le> bv c" "bv c \<noteq> RuneError"
    by (simp_all add: RuneSelf_def RuneError_def)
  then show ?case
    by (subst appendQuoted_loop.simps)
      (simp add: appendEscapedRune_digit [OF d] Cons.IH [OF ds])
qed

lemma Quote_digits: "list_all is_digit s \<Longrightarrow> Quote tab s = dquote # s @ [dquote]"
  by (simp add: Quote_def appendQuoted_loop_digits)

text \<open>
  C5. For every snowflake \<open>v\<close> (and whatever the Unicode table of \<open>strconv.Quote\<close>
  holds), \<open>MarshalJSON v\<close> returns no error and exactly the decimal string of \<open>v\<close>
  between one pair of double quotes. \<open>MarshalJSON\<close> does not read \<open>AllowUnquoted\<close>. The
  decimal string is the unsigned base-10 representation: digits only, denoting \<open>v\<close>,
  with a leading \<open>0\<close> only for \<open>v = 0\<close>.
\<close>

theorem MarshalJSON_quoted:
  "MarshalJSON tab v = (dquote # String v @ [dquote], None) \<and>
   decimal_form (String v) \<and>
   decimal_value (String v) = unat v \<and>
   (hd (String v) = CHR ''0'') = (v = 0)"
  using FormatUint_valid [of v]
  by (simp add: MarshalJSON_def String_def Quote_digits FormatUint_digits FormatUint_value
      FormatUint_leading valid_decimal_def)

theorem MarshalJSON_quoted_witness:
  "MarshalJSON (\<lambda>r. False) 175928847299117209 =
     (dquote # ''175928847299117209'' @ [dquote], None)"
proof -
  have "String 175928847299117209 = ''175928847299117209''" by code_simp
  with MarshalJSON_quoted [of "\<lambda>r. False" 175928847299117209] show ?thesis by simp
qed


section \<open>The JSON forms accepted\<close>




















end
